theory Spec2Isabelle
  imports Main
begin

section \<open>The line-diff display of the note-diff plugin\<close>

text \<open>
  The development follows \<^verbatim>\<open>src/DiffModal.ts\<close>: the class \<^verbatim>\<open>DiffModal\<close> holds two
  files and their contents, loads the contents through the vault, calls the line
  diff of the \<^verbatim>\<open>diff\<close> package and turns every part of the result into one span
  with one child span per line.
\<close>

subsection \<open>Strings and the DOM fragment\<close>

abbreviation nl :: char where
  "nl \<equiv> CHR 0x0A"

text \<open>
  One element of the array returned by \<^verbatim>\<open>Diff.diffLines\<close>. The source reads the
  fields \<^verbatim>\<open>value\<close>, \<^verbatim>\<open>added\<close> and \<^verbatim>\<open>removed\<close>; a flag that is absent in JavaScript is
  \<open>False\<close> here. The field \<^verbatim>\<open>value\<close> is called \<open>part_value\<close>, its own name being a
  command of the proof language.
\<close>

record change =
  part_value :: string
  added :: bool
  removed :: bool

text \<open>
  The inner span of one line: its \<^verbatim>\<open>textContent\<close> and whether a \<^verbatim>\<open>br\<close> element was
  created inside it. The outer span of one part carries the class and the line spans.
\<close>

record lineSpan =
  textContent :: string
  br :: bool

record span =
  cls :: string
  lineSpans :: "lineSpan list"

datatype node = TextNode string | SpanNode span

subsection \<open>Rendering one part\<close>

text \<open>\<^verbatim>\<open>s.split("\n")\<close>: the pieces between the line breaks; never the empty array.\<close>

fun split_nl :: "string \<Rightarrow> string list" where
  "split_nl [] = [[]]"
| "split_nl (c # cs) =
     (if c = nl then [] # split_nl cs
      else (case split_nl cs of [] \<Rightarrow> [[c]] | l # ls \<Rightarrow> (c # l) # ls))"

text \<open>\<^verbatim>\<open>s.endsWith("\n")\<close>.\<close>

definition endsWith_nl :: "string \<Rightarrow> bool" where
  "endsWith_nl s = (s \<noteq> [] \<and> last s = nl)"

text \<open>
  \<^verbatim>\<open>const lines = part.value.split("\n"); if (lines[lines.length - 1] === "") lines.pop();\<close>
  Reading index \<open>-1\<close> of an empty array gives \<^verbatim>\<open>undefined\<close>, which is not the empty string.
\<close>

definition rawLines :: "string \<Rightarrow> string list" where
  "rawLines v =
     (let lines = split_nl v
      in if lines \<noteq> [] \<and> last lines = [] then butlast lines else lines)"

text \<open>
  \<^verbatim>\<open>let prefix = "  "; if (part.added) prefix = "+ "; if (part.removed) prefix = "- ";\<close>
  The second assignment overrides the first.
\<close>

definition linePrefix :: "change \<Rightarrow> string" where
  "linePrefix part =
     (let prefix = ''  '';
          prefix = (if added part then ''+ '' else prefix);
          prefix = (if removed part then ''- '' else prefix)
      in prefix)"

definition partClass :: "change \<Rightarrow> string" where
  "partClass part =
     (if added part then ''diff-added''
      else if removed part then ''diff-removed''
      else ''diff-unchanged'')"

text \<open>The body of \<^verbatim>\<open>diffResult.forEach\<close>: the span built for one part.\<close>

definition renderPart :: "change \<Rightarrow> span" where
  "renderPart part =
     (let lines = rawLines (part_value part)
      in \<lparr>cls = partClass part,
          lineSpans =
            map (\<lambda>(index, line).
                   \<lparr>textContent = linePrefix part @ line,
                    br = (index < length lines - 1 \<or> endsWith_nl (part_value part))\<rparr>)
                (enumerate 0 lines)\<rparr>)"

text \<open>
  Lines 179 to 211 of \<^verbatim>\<open>updateDiffDisplay\<close>: the fragment holds one span per part of
  the diff, in order. The parameter \<open>dl\<close> stands for the call
  \<^verbatim>\<open>Diff.diffLines(a, b, {newlineIsToken: true, ignoreWhitespace: false})\<close>.
\<close>

type_synonym differ = "string \<Rightarrow> string \<Rightarrow> change list"

definition renderDiff :: "differ \<Rightarrow> string \<Rightarrow> string \<Rightarrow> span list" where
  "renderDiff dl a b = map renderPart (dl a b)"

text \<open>The physical text of a rendered line list without the prefixes: every line
  content, followed by a line break where the \<^verbatim>\<open>br\<close> flag is set.\<close>

definition lineText :: "lineSpan \<Rightarrow> string" where
  "lineText l = drop 2 (textContent l) @ (if br l then [nl] else [])"

text \<open>The number of lines of a text: one per line break, and one more for a last
  line that has no terminator.\<close>

definition lineCount :: "string \<Rightarrow> nat" where
  "lineCount s = count_list s nl + (if s = [] \<or> last s = nl then 0 else 1)"

subsection \<open>The modal and its host\<close>

text \<open>Of a \<^verbatim>\<open>TFile\<close> the modal reads \<^verbatim>\<open>path\<close> and \<^verbatim>\<open>basename\<close>.\<close>

record tfile =
  path :: string
  basename :: string

text \<open>
  \<^verbatim>\<open>app.vault.cachedRead\<close>: the content of a file (\<open>Inr\<close>), or a thrown error (\<open>Inl\<close>)
  with its \<^verbatim>\<open>message\<close>, if it has one.
\<close>

type_synonym vault = "tfile \<Rightarrow> string option + string"

text \<open>
  The fields of \<^verbatim>\<open>DiffModal\<close>. \<open>resultEl\<close> is the list of children of the result
  element. Two fields are not fields of the class: \<open>notices\<close> collects the texts of the
  \<^verbatim>\<open>Notice\<close> pop-ups shown to the user, and \<open>diffCalls\<close> records the arguments of every
  call of \<^verbatim>\<open>Diff.diffLines\<close>, so that both effects can be spoken about.
\<close>

record DiffModal =
  file1 :: tfile
  file2 :: "tfile option"
  file2Content :: string
  file1Content :: string
  resultEl :: "node list"
  initialFile2Provided :: bool
  notices :: "string list"
  diffCalls :: "(string \<times> string) list"

text \<open>The field initialisers and the constructor.\<close>

definition newDiffModal :: "tfile \<Rightarrow> tfile option \<Rightarrow> DiffModal" where
  "newDiffModal f1 f2 =
     \<lparr>file1 = f1, file2 = f2, file2Content = [], file1Content = [], resultEl = [],
      initialFile2Provided = (f2 \<noteq> None), notices = [], diffCalls = []\<rparr>"

text \<open>\<^verbatim>\<open>s.includes(t)\<close>: \<open>t\<close> occurs in \<open>s\<close> as a contiguous piece.\<close>

fun includes_str :: "string \<Rightarrow> string \<Rightarrow> bool" where
  "includes_str [] t = (t = [])"
| "includes_str (c # cs) t = (take (length t) (c # cs) = t \<or> includes_str cs t)"

text \<open>
  The name put into the error notice:
  \<^verbatim>\<open>err.message?.includes(file1.basename) ? file1.basename : file2?.basename || "unknown file"\<close>.
\<close>

definition failedFile :: "string option \<Rightarrow> DiffModal \<Rightarrow> string" where
  "failedFile message s =
     (if (case message of None \<Rightarrow> False | Some m \<Rightarrow> includes_str m (basename (file1 s)))
      then basename (file1 s)
      else (case file2 s of
              None \<Rightarrow> ''unknown file''
            | Some f \<Rightarrow> if basename f = [] then ''unknown file'' else basename f))"

definition catchReadError :: "string option \<Rightarrow> DiffModal \<Rightarrow> bool \<times> DiffModal" where
  "catchReadError message s =
     (False, s\<lparr>notices := notices s @ [''Error reading content for '' @ failedFile message s]\<rparr>)"

text \<open>
  \<^verbatim>\<open>loadFilesContent\<close>: the first file is always read; the second when it is set. An
  assignment made before a later read throws stays in the state.
\<close>

definition loadFilesContent :: "vault \<Rightarrow> DiffModal \<Rightarrow> bool \<times> DiffModal" where
  "loadFilesContent v s =
     (case v (file1 s) of
        Inl message \<Rightarrow> catchReadError message s
      | Inr c1 \<Rightarrow>
          (let s1 = s\<lparr>file1Content := c1\<rparr>
           in case file2 s1 of
                Some f2 \<Rightarrow>
                  (case v f2 of
                     Inl message \<Rightarrow> catchReadError message s1
                   | Inr c2 \<Rightarrow> (True, s1\<lparr>file2Content := c2\<rparr>))
              | None \<Rightarrow>
                  if initialFile2Provided s1
                  then (False, s1\<lparr>notices := notices s1 @ [''Internal error: File 2 missing.'']\<rparr>)
                  else (True, s1)))"

text \<open>\<^verbatim>\<open>el.setText(t)\<close> replaces the children of the element by one text node.\<close>

definition setText :: "string \<Rightarrow> DiffModal \<Rightarrow> DiffModal" where
  "setText t s = s\<lparr>resultEl := [TextNode t]\<rparr>"

text \<open>
  \<^verbatim>\<open>updateDiffDisplay\<close>. \<^verbatim>\<open>file1\<close> is an object, so \<^verbatim>\<open>!this.file1\<close> is false;
  \<^verbatim>\<open>!this.file2\<close> holds of \<^verbatim>\<open>null\<close>, and \<^verbatim>\<open>!content\<close> holds of the empty string only.
\<close>

definition updateDiffDisplay :: "differ \<Rightarrow> DiffModal \<Rightarrow> DiffModal" where
  "updateDiffDisplay dl s =
     (let s0 = s\<lparr>resultEl := []\<rparr>
      in if file2 s0 = None \<or> file1Content s0 = [] \<or> file2Content s0 = []
         then (if file2 s0 = None then setText ''Select a file to compare against.'' s0
               else if file1Content s0 = [] \<or> file2Content s0 = []
               then setText ''Waiting for file content...'' s0
               else setText ''Ready for comparison.'' s0)
         else (let fragment = renderDiff dl (file1Content s0) (file2Content s0)
               in s0\<lparr>resultEl := resultEl s0 @ map SpanNode fragment,
                     diffCalls := diffCalls s0 @ [(file1Content s0, file2Content s0)]\<rparr>))"

text \<open>\<^verbatim>\<open>onOpen\<close>, from the creation of the result element on.\<close>

definition onOpen :: "differ \<Rightarrow> vault \<Rightarrow> DiffModal \<Rightarrow> DiffModal" where
  "onOpen dl v s =
     (case loadFilesContent v (setText ''Loading comparison...'' s) of
        (success, s1) \<Rightarrow>
          if success then updateDiffDisplay dl s1
          else setText ''Error loading file content.'' s1)"

text \<open>\<^verbatim>\<open>selectFile\<close>: a file was picked from the suggestions.\<close>

definition selectFile :: "differ \<Rightarrow> vault \<Rightarrow> tfile \<Rightarrow> DiffModal \<Rightarrow> DiffModal" where
  "selectFile dl v file s =
     (case loadFilesContent v
             (s\<lparr>file2 := Some file, notices := notices s @ [''Selected: '' @ basename file]\<rparr>) of
        (success, s1) \<Rightarrow>
          if success then updateDiffDisplay dl s1
          else updateDiffDisplay dl (s1\<lparr>file2 := None, file2Content := []\<rparr>))"

text \<open>The \<^verbatim>\<open>onChange\<close> handler of the search field when the field was emptied.\<close>

definition onSearchCleared :: "differ \<Rightarrow> DiffModal \<Rightarrow> DiffModal" where
  "onSearchCleared dl s = updateDiffDisplay dl (s\<lparr>file2 := None\<rparr>)"

text \<open>The spans among the children of the result element, and all their lines.\<close>

fun spansOf :: "node list \<Rightarrow> span list" where
  "spansOf [] = []"
| "spansOf (TextNode t # ns) = spansOf ns"
| "spansOf (SpanNode sp # ns) = sp # spansOf ns"

definition renderedLines :: "DiffModal \<Rightarrow> lineSpan list" where
  "renderedLines s = concat (map lineSpans (spansOf (resultEl s)))"

subsection \<open>The line diff\<close>

text \<open>
  The modal imports \<^verbatim>\<open>Diff.diffLines\<close> from the package \<^verbatim>\<open>diff\<close>; its code is not part
  of the repository. The spec describes it as a line-oriented diff in the style of a
  longest common subsequence over line tokens, with the line terminator as a token
  boundary, comparing tokens exactly (no whitespace is normalised), that returns
  maximal runs of equally classified tokens in document order. The definitions of
  this subsection follow that description, for the options of the call
  (\<^verbatim>\<open>newlineIsToken: true\<close>, \<^verbatim>\<open>ignoreWhitespace: false\<close>).
\<close>

text \<open>
  Modelled from the spec: the tokens of \<^verbatim>\<open>Diff.diffLines\<close>, whose code is missing. A
  line break is a token of its own; the text between two line breaks is a token when
  it is not empty.
\<close>

fun tokenize :: "string \<Rightarrow> string list" where
  "tokenize [] = []"
| "tokenize (c # cs) =
     (if c = nl then [nl] # tokenize cs
      else (case tokenize cs of
              [] \<Rightarrow> [[c]]
            | t # ts \<Rightarrow> if t = [nl] then [c] # t # ts else (c # t) # ts))"

text \<open>
  Modelled from the spec: the length of a longest common subsequence of two token
  lists, which the missing \<^verbatim>\<open>Diff.diffLines\<close> aligns the texts by; tokens are compared
  with equality.
\<close>

fun lcsLength :: "string list \<Rightarrow> string list \<Rightarrow> nat" where
  "lcsLength [] ys = 0"
| "lcsLength (x # xs) [] = 0"
| "lcsLength (x # xs) (y # ys) =
     (if x = y then Suc (lcsLength xs ys)
      else max (lcsLength xs (y # ys)) (lcsLength (x # xs) ys))"

text \<open>The three kinds of parts: neither flag, \<^verbatim>\<open>added\<close>, \<^verbatim>\<open>removed\<close>.\<close>

definition unchangedPart :: "string \<Rightarrow> change" where
  "unchangedPart t = \<lparr>part_value = t, added = False, removed = False\<rparr>"

definition addedPart :: "string \<Rightarrow> change" where
  "addedPart t = \<lparr>part_value = t, added = True, removed = False\<rparr>"

definition removedPart :: "string \<Rightarrow> change" where
  "removedPart t = \<lparr>part_value = t, added = False, removed = True\<rparr>"

text \<open>
  Modelled from the spec: the alignment of the missing \<^verbatim>\<open>Diff.diffLines\<close>, one part
  per token, in document order. Equal heads are kept; otherwise the head whose
  removal loses no common token goes first, a removal before an insertion.
\<close>

fun diffTokens :: "string list \<Rightarrow> string list \<Rightarrow> change list" where
  "diffTokens [] ys = map addedPart ys"
| "diffTokens (x # xs) [] = map removedPart (x # xs)"
| "diffTokens (x # xs) (y # ys) =
     (if x = y then unchangedPart x # diffTokens xs ys
      else if lcsLength (x # xs) ys \<le> lcsLength xs (y # ys)
      then removedPart x # diffTokens xs (y # ys)
      else addedPart y # diffTokens (x # xs) ys)"

text \<open>
  Modelled from the spec: the segments of the missing \<^verbatim>\<open>Diff.diffLines\<close> are maximal
  runs; neighbouring parts of one classification become one part.
\<close>

fun mergeRuns :: "change list \<Rightarrow> change list" where
  "mergeRuns [] = []"
| "mergeRuns (p # ps) =
     (case mergeRuns ps of
        [] \<Rightarrow> [p]
      | q # qs \<Rightarrow>
          if added p = added q \<and> removed p = removed q
          then q\<lparr>part_value := part_value p @ part_value q\<rparr> # qs
          else p # q # qs)"

text \<open>
  Modelled from the spec: \<^verbatim>\<open>Diff.diffLines(a, b, {newlineIsToken: true,
  ignoreWhitespace: false})\<close> of the package \<^verbatim>\<open>diff\<close>, whose code is missing: the
  merged alignment of the tokens of the two texts.
\<close>

definition diffLines :: differ where
  "diffLines a b = mergeRuns (diffTokens (tokenize a) (tokenize b))"

subsection \<open>Example files\<close>

definition noteA :: tfile where
  "noteA = \<lparr>path = ''notes/a.md'', basename = ''a''\<rparr>"

definition noteB :: tfile where
  "noteB = \<lparr>path = ''notes/b.md'', basename = ''b''\<rparr>"

text \<open>A vault that answers a read of \<open>noteA\<close> with \<open>r1\<close> and any other read with \<open>r2\<close>.\<close>

definition twoFileVault :: "string option + string \<Rightarrow> string option + string \<Rightarrow> vault" where
  "twoFileVault r1 r2 f = (if f = noteA then r1 else r2)"

subsection \<open>Facts about splitting\<close>

lemma split_nl_not_Nil: "split_nl s \<noteq> []"
  by (induction s) (auto split: list.splits)

lemma split_nl_append_nl: "split_nl (s @ [nl]) = split_nl s @ [[]]"
  by (induction s) (auto split: list.splits simp: split_nl_not_Nil)

lemma split_nl_no_nl: "l \<in> set (split_nl s) \<Longrightarrow> nl \<notin> set l"
  by (induction s arbitrary: l) (auto split: list.splits if_splits)

lemma length_split_nl: "length (split_nl s) = Suc (count_list s nl)"
  by (induction s) (auto split: list.splits simp: split_nl_not_Nil)

lemma split_nl_append_char:
  "c \<noteq> nl \<Longrightarrow> split_nl (s @ [c]) = butlast (split_nl s) @ [last (split_nl s) @ [c]]"
  by (induction s) (auto split: list.splits simp: split_nl_not_Nil)

lemma last_split_nl_Nil: "last (split_nl s) = [] \<longleftrightarrow> s = [] \<or> last s = nl"
proof (cases s rule: rev_cases)
  case Nil
  then show ?thesis by simp
next
  case (snoc cs c)
  then show ?thesis
    by (cases "c = nl") (simp_all add: split_nl_append_nl split_nl_append_char)
qed

lemma split_nl_join:
  "concat (map (\<lambda>l. l @ [nl]) (butlast (split_nl s))) @ last (split_nl s) = s"
  by (induction s) (auto split: list.splits simp: split_nl_not_Nil)

lemma rawLines_Nil: "rawLines [] = []"
  by (simp add: rawLines_def)

lemma rawLines_append_nl: "rawLines (w @ [nl]) = split_nl w"
  by (simp add: rawLines_def split_nl_append_nl)

lemma rawLines_unterminated: "s \<noteq> [] \<Longrightarrow> last s \<noteq> nl \<Longrightarrow> rawLines s = split_nl s"
  by (simp add: rawLines_def last_split_nl_Nil)

lemma rawLines_cases:
  obtains (empty) "s = []" "rawLines s = []"
  | (terminated) w where "s = w @ [nl]" "rawLines s = split_nl w"
  | (unterminated) "s \<noteq> []" "last s \<noteq> nl" "rawLines s = split_nl s"
proof (cases s rule: rev_cases)
  case Nil
  then show ?thesis using empty rawLines_Nil by simp
next
  case (snoc w c)
  show ?thesis
  proof (cases "c = nl")
    case True
    with snoc show ?thesis using terminated rawLines_append_nl by simp
  next
    case False
    with snoc show ?thesis using unterminated [OF _ _ rawLines_unterminated] by simp
  qed
qed

lemma length_rawLines: "length (rawLines s) = lineCount s"
  by (cases s rule: rawLines_cases) (simp_all add: lineCount_def length_split_nl)

lemma rawLines_no_nl: "l \<in> set (rawLines s) \<Longrightarrow> nl \<notin> set l"
  by (auto simp: rawLines_def Let_def dest: split_nl_no_nl in_set_butlastD split: if_splits)

lemma length_linePrefix: "length (linePrefix part) = 2"
  by (simp add: linePrefix_def)

lemma nl_notin_linePrefix: "nl \<notin> set (linePrefix part)"
  by (simp add: linePrefix_def)

lemma length_lineSpans: "length (lineSpans (renderPart part)) = length (rawLines (part_value part))"
  by (simp add: renderPart_def Let_def)

lemma nth_lineSpans:
  assumes "i < length (rawLines (part_value part))"
  shows "lineSpans (renderPart part) ! i =
           \<lparr>textContent = linePrefix part @ rawLines (part_value part) ! i,
            br = (i < length (rawLines (part_value part)) - 1 \<or> endsWith_nl (part_value part))\<rparr>"
  using assms by (simp add: renderPart_def Let_def nth_enumerate_eq)

lemma lineSpans_terminated:
  "endsWith_nl (part_value part) \<Longrightarrow>
   lineSpans (renderPart part) =
     map (\<lambda>l. \<lparr>textContent = linePrefix part @ l, br = True\<rparr>) (rawLines (part_value part))"
  by (rule nth_equalityI) (simp_all add: length_lineSpans nth_lineSpans)

lemma lineSpans_unterminated:
  assumes "\<not> endsWith_nl (part_value part)" "rawLines (part_value part) \<noteq> []"
  shows "lineSpans (renderPart part) =
     map (\<lambda>l. \<lparr>textContent = linePrefix part @ l, br = True\<rparr>) (butlast (rawLines (part_value part)))
     @ [\<lparr>textContent = linePrefix part @ last (rawLines (part_value part)), br = False\<rparr>]"
proof (rule nth_equalityI)
  show "length (lineSpans (renderPart part)) = length (map (\<lambda>l. \<lparr>textContent = linePrefix part @ l, br = True\<rparr>) (butlast (rawLines (part_value part)))
     @ [\<lparr>textContent = linePrefix part @ last (rawLines (part_value part)), br = False\<rparr>])"
    using assms by (simp add: length_lineSpans)
next
  fix i assume "i < length (lineSpans (renderPart part))"
  then have i: "i < length (rawLines (part_value part))" by (simp add: length_lineSpans)
  show "lineSpans (renderPart part) ! i = (map (\<lambda>l. \<lparr>textContent = linePrefix part @ l, br = True\<rparr>) (butlast (rawLines (part_value part)))
     @ [\<lparr>textContent = linePrefix part @ last (rawLines (part_value part)), br = False\<rparr>]) ! i"
  proof (cases "i < length (rawLines (part_value part)) - 1")
    case True
    then show ?thesis using i assms by (simp add: nth_lineSpans nth_append nth_butlast)
  next
    case False
    with i have "i = length (rawLines (part_value part)) - 1" by simp
    then show ?thesis using i assms by (simp add: nth_lineSpans nth_append last_conv_nth)
  qed
qed

lemma lineText_simp:
  "lineText \<lparr>textContent = linePrefix part @ l, br = b\<rparr> = l @ (if b then [nl] else [])"
  by (simp add: lineText_def length_linePrefix)

lemma renderPart_text: "concat (map lineText (lineSpans (renderPart part))) = part_value part"
proof (cases "part_value part" rule: rawLines_cases)
  case empty
  then show ?thesis by (simp add: renderPart_def)
next
  case (terminated w)
  then have e: "endsWith_nl (part_value part)" by (simp add: endsWith_nl_def)
  have "concat (map (\<lambda>l. l @ [nl]) (split_nl w)) =
        concat (map (\<lambda>l. l @ [nl]) (butlast (split_nl w) @ [last (split_nl w)]))"
    by (simp add: split_nl_not_Nil)
  also have "\<dots> = (concat (map (\<lambda>l. l @ [nl]) (butlast (split_nl w))) @ last (split_nl w)) @ [nl]"
    by simp
  also have "\<dots> = w @ [nl]" by (simp only: split_nl_join)
  finally show ?thesis using terminated
    by (simp add: lineSpans_terminated [OF e] o_def lineText_simp)
next
  case unterminated
  then have e: "\<not> endsWith_nl (part_value part)" by (simp add: endsWith_nl_def)
  have ne: "rawLines (part_value part) \<noteq> []" using unterminated by (simp add: split_nl_not_Nil)
  show ?thesis using unterminated split_nl_join [of "part_value part"]
    by (simp add: lineSpans_unterminated [OF e ne] o_def lineText_simp)
qed

lemma spansOf_map_SpanNode: "spansOf (map SpanNode sps) = sps"
  by (induction sps) simp_all

lemma resultEl_updateDiffDisplay:
  "resultEl (updateDiffDisplay dl s) =
     (if file2 s = None then [TextNode ''Select a file to compare against.'']
      else if file1Content s = [] \<or> file2Content s = []
      then [TextNode ''Waiting for file content...'']
      else map SpanNode (renderDiff dl (file1Content s) (file2Content s)))"
  by (simp add: updateDiffDisplay_def setText_def Let_def)

lemma diffCalls_updateDiffDisplay:
  "diffCalls (updateDiffDisplay dl s) =
     (if file2 s \<noteq> None \<and> file1Content s \<noteq> [] \<and> file2Content s \<noteq> []
      then diffCalls s @ [(file1Content s, file2Content s)]
      else diffCalls s)"
  by (simp add: updateDiffDisplay_def setText_def Let_def)

lemma notices_updateDiffDisplay: "notices (updateDiffDisplay dl s) = notices s"
  by (simp add: updateDiffDisplay_def setText_def Let_def)

lemma spansOf_updateDiffDisplay:
  "spansOf (resultEl (updateDiffDisplay dl s)) =
     (if file2 s \<noteq> None \<and> file1Content s \<noteq> [] \<and> file2Content s \<noteq> []
      then renderDiff dl (file1Content s) (file2Content s)
      else [])"
  by (simp add: resultEl_updateDiffDisplay spansOf_map_SpanNode)

subsection \<open>Lines of a part\<close>

text \<open>
  C3. For every part with a non-empty text: the array obtained by splitting the text
  at the line breaks ends in an empty string exactly when the text ends in a line
  break; the rendered lines are the pieces without that final empty string, one
  line span per piece; the terminating line break adds no line, since the lines of
  \<open>w\<close> followed by a line break are the pieces of \<open>w\<close>; the number of line spans is the
  number of lines of the text.
\<close>

theorem part_lines_drop_final_empty:
  assumes "part_value part \<noteq> []"
  shows "(last (split_nl (part_value part)) = [] \<longleftrightarrow> endsWith_nl (part_value part))
       \<and> rawLines (part_value part) =
           (if endsWith_nl (part_value part) then butlast (split_nl (part_value part))
            else split_nl (part_value part))
       \<and> map textContent (lineSpans (renderPart part)) =
           map (\<lambda>l. linePrefix part @ l) (rawLines (part_value part))
       \<and> (endsWith_nl (part_value part) \<longrightarrow>
            rawLines (part_value part) = split_nl (butlast (part_value part)))
       \<and> length (lineSpans (renderPart part)) = lineCount (part_value part)"
proof -
  let ?v = "part_value part"
  have a: "last (split_nl ?v) = [] \<longleftrightarrow> endsWith_nl ?v"
    using assms by (simp add: last_split_nl_Nil endsWith_nl_def)
  have b: "rawLines ?v = (if endsWith_nl ?v then butlast (split_nl ?v) else split_nl ?v)"
    using a by (simp add: rawLines_def split_nl_not_Nil)
  have c: "map textContent (lineSpans (renderPart part)) = map (\<lambda>l. linePrefix part @ l) (rawLines ?v)"
    by (rule nth_equalityI) (simp_all add: length_lineSpans nth_lineSpans)
  have d: "endsWith_nl ?v \<longrightarrow> rawLines ?v = split_nl (butlast ?v)"
  proof
    assume "endsWith_nl ?v"
    then have "?v = butlast ?v @ [nl]"
      by (metis endsWith_nl_def append_butlast_last_id)
    then show "rawLines ?v = split_nl (butlast ?v)"
      by (metis rawLines_append_nl)
  qed
  have e: "length (lineSpans (renderPart part)) = lineCount ?v"
    by (simp add: length_lineSpans length_rawLines)
  from a b c d e show ?thesis by blast
qed

theorem part_lines_drop_final_empty_witness:
  "part_value (unchangedPart (''a'' @ [nl] @ ''b'' @ [nl])) \<noteq> []
   \<and> endsWith_nl (''a'' @ [nl] @ ''b'' @ [nl])
   \<and> split_nl (''a'' @ [nl] @ ''b'' @ [nl]) = [''a'', ''b'', []]
   \<and> rawLines (''a'' @ [nl] @ ''b'' @ [nl]) = [''a'', ''b'']
   \<and> map textContent (lineSpans (renderPart (unchangedPart (''a'' @ [nl] @ ''b'' @ [nl]))))
       = [''  a'', ''  b'']
   \<and> length (lineSpans (renderPart (unchangedPart (''a'' @ [nl] @ ''b'' @ [nl])))) = 2"
  using part_lines_drop_final_empty [of "unchangedPart (''a'' @ [nl] @ ''b'' @ [nl])"]
  by (simp add: unchangedPart_def endsWith_nl_def linePrefix_def lineCount_def)

text \<open>
  C4. For every raw line of every part, the line span at the same position has the
  text of the prefix followed by the line, where the prefix is \<open>+\<close> and a space for a
  part that is added, \<open>-\<close> and a space for a part that is removed and two spaces for a
  part that is neither; and a \<^verbatim>\<open>br\<close> element follows exactly when the line is not the
  last one of the part or the text of the part ends in a line break.
\<close>

theorem rendered_line_prefix_and_break:
  assumes "i < length (rawLines (part_value part))"
  shows "length (lineSpans (renderPart part)) = length (rawLines (part_value part))
       \<and> textContent (lineSpans (renderPart part) ! i) =
           linePrefix part @ rawLines (part_value part) ! i
       \<and> (added part \<and> \<not> removed part \<longrightarrow> linePrefix part = ''+ '')
       \<and> (removed part \<longrightarrow> linePrefix part = ''- '')
       \<and> (\<not> added part \<and> \<not> removed part \<longrightarrow> linePrefix part = ''  '')
       \<and> (br (lineSpans (renderPart part) ! i) \<longleftrightarrow>
            Suc i \<noteq> length (rawLines (part_value part)) \<or> endsWith_nl (part_value part))"
proof -
  have "i < length (rawLines (part_value part)) - 1 \<longleftrightarrow> Suc i \<noteq> length (rawLines (part_value part))"
    using assms by arith
  then show ?thesis
    using assms by (simp add: length_lineSpans nth_lineSpans linePrefix_def)
qed

theorem rendered_line_prefix_and_break_witness:
  "(1::nat) < length (rawLines (part_value (removedPart (''a'' @ [nl] @ ''b''))))
   \<and> removed (removedPart (''a'' @ [nl] @ ''b''))
   \<and> lineSpans (renderPart (removedPart (''a'' @ [nl] @ ''b''))) ! 1
       = \<lparr>textContent = ''- b'', br = False\<rparr>
   \<and> \<not> endsWith_nl (''a'' @ [nl] @ ''b'')"
proof -
  have h: "1 < length (rawLines (part_value (removedPart (''a'' @ [nl] @ ''b''))))"
    by (simp add: removedPart_def rawLines_def)
  have "lineSpans (renderPart (removedPart (''a'' @ [nl] @ ''b''))) ! 1
       = \<lparr>textContent = textContent (lineSpans (renderPart (removedPart (''a'' @ [nl] @ ''b''))) ! 1),
          br = br (lineSpans (renderPart (removedPart (''a'' @ [nl] @ ''b''))) ! 1)\<rparr>"
    by simp
  with rendered_line_prefix_and_break [OF h] h show ?thesis
    by (simp add: removedPart_def rawLines_def endsWith_nl_def)
qed

text \<open>
  C10. No piece obtained by splitting the text of a part at the line breaks contains
  a line break, and neither does the text of any line span built from the part (the
  prefix followed by the piece); so no line span of the display spans more than one
  physical line.
\<close>

theorem rendered_line_has_no_line_break:
  "(\<forall>l \<in> set (split_nl (part_value part)). nl \<notin> set l)
   \<and> (\<forall>ls \<in> set (lineSpans (renderPart part)). nl \<notin> set (textContent ls))
   \<and> (\<forall>ls \<in> set (renderedLines (updateDiffDisplay dl s)). nl \<notin> set (textContent ls))"
proof -
  have a: "\<forall>l \<in> set (split_nl (part_value part)). nl \<notin> set l"
    using split_nl_no_nl by blast
  have b: "\<forall>ls \<in> set (lineSpans (renderPart p)). nl \<notin> set (textContent ls)" for p
  proof
    fix ls assume "ls \<in> set (lineSpans (renderPart p))"
    then obtain i where i: "i < length (rawLines (part_value p))" and ls: "ls = lineSpans (renderPart p) ! i"
      by (metis in_set_conv_nth length_lineSpans)
    from i have "nl \<notin> set (rawLines (part_value p) ! i)"
      using rawLines_no_nl nth_mem by blast
    with i ls show "nl \<notin> set (textContent ls)"
      by (simp add: nth_lineSpans nl_notin_linePrefix)
  qed
  have c: "\<forall>ls \<in> set (renderedLines (updateDiffDisplay dl s)). nl \<notin> set (textContent ls)"
    using b by (auto simp: renderedLines_def spansOf_updateDiffDisplay renderDiff_def)
  from a b c show ?thesis by blast
qed

theorem rendered_line_has_no_line_break_witness:
  "\<lparr>textContent = ''+ x'', br = True\<rparr>
     \<in> set (lineSpans (renderPart (addedPart (''x'' @ [nl] @ ''y''))))
   \<and> ''x'' \<in> set (split_nl (part_value (addedPart (''x'' @ [nl] @ ''y''))))
   \<and> nl \<notin> set ''x'' \<and> nl \<notin> set ''+ x''"
  using rendered_line_has_no_line_break [of "addedPart (''x'' @ [nl] @ ''y'')"]
  by (simp add: addedPart_def renderPart_def rawLines_def linePrefix_def enumerate_eq_zip)

subsection \<open>Loading and the guard of the display\<close>

lemma fields_updateDiffDisplay:
  "file1 (updateDiffDisplay dl s) = file1 s"
  "file2 (updateDiffDisplay dl s) = file2 s"
  "file1Content (updateDiffDisplay dl s) = file1Content s"
  "file2Content (updateDiffDisplay dl s) = file2Content s"
  by (simp_all add: updateDiffDisplay_def setText_def Let_def)

lemma catchReadError_simps:
  "fst (catchReadError m s) = False"
  "notices (snd (catchReadError m s)) =
     notices s @ [''Error reading content for '' @ failedFile m s]"
  "diffCalls (snd (catchReadError m s)) = diffCalls s"
  "file2 (snd (catchReadError m s)) = file2 s"
  by (simp_all add: catchReadError_def)

text \<open>What \<^verbatim>\<open>loadFilesContent\<close> returns, by the outcome of the reads.\<close>

lemma loadFilesContent_file1_fails:
  "v (file1 s) = Inl m \<Longrightarrow> loadFilesContent v s = catchReadError m s"
  by (simp add: loadFilesContent_def)

lemma loadFilesContent_file2_fails:
  "v (file1 s) = Inr c1 \<Longrightarrow> file2 s = Some f \<Longrightarrow> v f = Inl m \<Longrightarrow>
   loadFilesContent v s = catchReadError m (s\<lparr>file1Content := c1\<rparr>)"
  by (simp add: loadFilesContent_def)

lemma loadFilesContent_both_read:
  "v (file1 s) = Inr c1 \<Longrightarrow> file2 s = Some f \<Longrightarrow> v f = Inr c2 \<Longrightarrow>
   loadFilesContent v s = (True, s\<lparr>file1Content := c1, file2Content := c2\<rparr>)"
  by (simp add: loadFilesContent_def)

lemma loadFilesContent_no_file2:
  "v (file1 s) = Inr c1 \<Longrightarrow> file2 s = None \<Longrightarrow>
   loadFilesContent v s =
     (if initialFile2Provided s
      then (False, s\<lparr>file1Content := c1,
                      notices := notices s @ [''Internal error: File 2 missing.'']\<rparr>)
      else (True, s\<lparr>file1Content := c1\<rparr>))"
  by (simp add: loadFilesContent_def)

lemma loadFilesContent_diffCalls: "diffCalls (snd (loadFilesContent v s)) = diffCalls s"
  by (simp add: loadFilesContent_def catchReadError_def Let_def split: sum.splits option.splits)

lemma loadFilesContent_file2: "file2 (snd (loadFilesContent v s)) = file2 s"
  by (simp add: loadFilesContent_def catchReadError_def Let_def split: sum.splits option.splits)

lemma loadFilesContent_read_failure:
  assumes "(\<exists>m. v (file1 s) = Inl m) \<or> (\<exists>f m. file2 s = Some f \<and> v f = Inl m)"
  shows "\<not> fst (loadFilesContent v s)
       \<and> (\<exists>name. notices (snd (loadFilesContent v s)) =
                    notices s @ [''Error reading content for '' @ name])"
proof (cases "v (file1 s)")
  case (Inl m)
  then show ?thesis
    by (simp add: loadFilesContent_file1_fails catchReadError_simps)
next
  case (Inr c1)
  with assms obtain f m where "file2 s = Some f" "v f = Inl m" by auto
  with Inr show ?thesis
    by (simp add: loadFilesContent_file2_fails catchReadError_simps)
qed

lemma loadFilesContent_success:
  assumes "fst (loadFilesContent v s)"
  shows "\<exists>c1. v (file1 s) = Inr c1 \<and> file1Content (snd (loadFilesContent v s)) = c1
           \<and> (case file2 s of
                 None \<Rightarrow> True
               | Some f \<Rightarrow> \<exists>c2. v f = Inr c2 \<and> file2Content (snd (loadFilesContent v s)) = c2)"
  using assms
  by (auto simp: loadFilesContent_def catchReadError_def Let_def split: sum.splits option.splits if_splits)

lemma onOpen_unfold:
  "onOpen dl v s =
     (if fst (loadFilesContent v (setText ''Loading comparison...'' s))
      then updateDiffDisplay dl (snd (loadFilesContent v (setText ''Loading comparison...'' s)))
      else setText ''Error loading file content.''
             (snd (loadFilesContent v (setText ''Loading comparison...'' s))))"
  by (simp add: onOpen_def case_prod_beta)

lemma selectFile_unfold:
  "selectFile dl v file s =
     (let r = loadFilesContent v
                (s\<lparr>file2 := Some file, notices := notices s @ [''Selected: '' @ basename file]\<rparr>)
      in if fst r then updateDiffDisplay dl (snd r)
         else updateDiffDisplay dl ((snd r)\<lparr>file2 := None, file2Content := []\<rparr>))"
  by (simp add: selectFile_def case_prod_beta)

lemma onOpen_read_failure:
  assumes "(\<exists>m. v (file1 s) = Inl m) \<or> (\<exists>f m. file2 s = Some f \<and> v f = Inl m)"
  shows "diffCalls (onOpen dl v s) = diffCalls s
       \<and> resultEl (onOpen dl v s) = [TextNode ''Error loading file content.'']
       \<and> (\<exists>name. notices (onOpen dl v s) = notices s @ [''Error reading content for '' @ name])"
proof -
  let ?s0 = "setText ''Loading comparison...'' s"
  have "(\<exists>m. v (file1 ?s0) = Inl m) \<or> (\<exists>f m. file2 ?s0 = Some f \<and> v f = Inl m)"
    using assms by (simp add: setText_def)
  from loadFilesContent_read_failure [OF this]
  obtain name where f: "\<not> fst (loadFilesContent v ?s0)"
    and n: "notices (snd (loadFilesContent v ?s0)) = notices ?s0 @ [''Error reading content for '' @ name]"
    by blast
  have d: "diffCalls (snd (loadFilesContent v ?s0)) = diffCalls s"
    by (simp add: loadFilesContent_diffCalls setText_def)
  have o: "onOpen dl v s = setText ''Error loading file content.'' (snd (loadFilesContent v ?s0))"
    using f by (simp add: onOpen_unfold)
  show ?thesis using n d by (auto simp: o setText_def)
qed

lemma onOpen_diff_called:
  assumes "diffCalls (onOpen dl v s) \<noteq> diffCalls s"
  shows "\<exists>f c1 c2. file2 s = Some f \<and> v (file1 s) = Inr c1 \<and> v f = Inr c2
           \<and> diffCalls (onOpen dl v s) = diffCalls s @ [(c1, c2)]"
proof -
  let ?s0 = "setText ''Loading comparison...'' s"
  let ?s1 = "snd (loadFilesContent v ?s0)"
  have d: "diffCalls ?s1 = diffCalls s"
    by (simp add: loadFilesContent_diffCalls setText_def)
  have ok: "fst (loadFilesContent v ?s0)"
  proof (rule ccontr)
    assume "\<not> fst (loadFilesContent v ?s0)"
    then have "onOpen dl v s = setText ''Error loading file content.'' ?s1"
      by (simp add: onOpen_unfold)
    with d assms show False by (simp add: setText_def)
  qed
  then have o: "onOpen dl v s = updateDiffDisplay dl ?s1"
    by (simp add: onOpen_unfold)
  have f2: "file2 ?s1 = file2 s"
    by (simp add: loadFilesContent_file2 setText_def)
  from assms o d f2 obtain f where f: "file2 s = Some f"
    and ne: "diffCalls (onOpen dl v s) = diffCalls s @ [(file1Content ?s1, file2Content ?s1)]"
    by (auto simp: diffCalls_updateDiffDisplay split: if_splits)
  from loadFilesContent_success [OF ok] f
  obtain c1 c2 where "v (file1 s) = Inr c1" "file1Content ?s1 = c1" "v f = Inr c2" "file2Content ?s1 = c2"
    by (auto simp: setText_def)
  with f ne show ?thesis by auto
qed

lemma selectFile_read_failure:
  assumes "(\<exists>m. v (file1 s) = Inl m) \<or> (\<exists>m. v file = Inl m)"
  shows "diffCalls (selectFile dl v file s) = diffCalls s
       \<and> resultEl (selectFile dl v file s) = [TextNode ''Select a file to compare against.'']
       \<and> (\<exists>name. notices (selectFile dl v file s) =
                    notices s @ [''Selected: '' @ basename file, ''Error reading content for '' @ name])"
proof -
  let ?s0 = "s\<lparr>file2 := Some file, notices := notices s @ [''Selected: '' @ basename file]\<rparr>"
  have "(\<exists>m. v (file1 ?s0) = Inl m) \<or> (\<exists>f m. file2 ?s0 = Some f \<and> v f = Inl m)"
    using assms by simp
  from loadFilesContent_read_failure [OF this]
  obtain name where f: "\<not> fst (loadFilesContent v ?s0)"
    and n: "notices (snd (loadFilesContent v ?s0)) = notices ?s0 @ [''Error reading content for '' @ name]"
    by blast
  have d: "diffCalls (snd (loadFilesContent v ?s0)) = diffCalls s"
    by (simp add: loadFilesContent_diffCalls)
  have o: "selectFile dl v file s =
             updateDiffDisplay dl ((snd (loadFilesContent v ?s0))\<lparr>file2 := None, file2Content := []\<rparr>)"
    using f by (simp add: selectFile_unfold)
  show ?thesis using n d
    by (auto simp: o diffCalls_updateDiffDisplay resultEl_updateDiffDisplay notices_updateDiffDisplay)
qed

lemma selectFile_diff_called:
  assumes "diffCalls (selectFile dl v file s) \<noteq> diffCalls s"
  shows "\<exists>c1 c2. v (file1 s) = Inr c1 \<and> v file = Inr c2
           \<and> diffCalls (selectFile dl v file s) = diffCalls s @ [(c1, c2)]"
proof -
  let ?s0 = "s\<lparr>file2 := Some file, notices := notices s @ [''Selected: '' @ basename file]\<rparr>"
  let ?s1 = "snd (loadFilesContent v ?s0)"
  have d: "diffCalls ?s1 = diffCalls s"
    by (simp add: loadFilesContent_diffCalls)
  have ok: "fst (loadFilesContent v ?s0)"
  proof (rule ccontr)
    assume "\<not> fst (loadFilesContent v ?s0)"
    then have "selectFile dl v file s = updateDiffDisplay dl (?s1\<lparr>file2 := None, file2Content := []\<rparr>)"
      by (simp add: selectFile_unfold)
    with d assms show False by (simp add: diffCalls_updateDiffDisplay)
  qed
  then have o: "selectFile dl v file s = updateDiffDisplay dl ?s1"
    by (simp add: selectFile_unfold)
  from assms o d
  have ne: "diffCalls (selectFile dl v file s) = diffCalls s @ [(file1Content ?s1, file2Content ?s1)]"
    by (auto simp: diffCalls_updateDiffDisplay split: if_splits)
  from loadFilesContent_success [OF ok]
  obtain c1 c2 where "v (file1 s) = Inr c1" "file1Content ?s1 = c1" "v file = Inr c2" "file2Content ?s1 = c2"
    by auto
  with ne show ?thesis by auto
qed

text \<open>
  C8. If the read of the first file fails, or a second file is set and its read
  fails, then \<^verbatim>\<open>onOpen\<close> does not call the diff, shows the text "Error loading file
  content." in the result element and shows one more notice, "Error reading content
  for" and a file name. Under the same condition \<^verbatim>\<open>selectFile\<close> does not call the diff
  either, shows the notice and resets the display to "Select a file to compare
  against.". Whenever \<^verbatim>\<open>onOpen\<close> or \<^verbatim>\<open>selectFile\<close> does call the diff, both reads
  have succeeded and the diff is called once, on the two contents just read.
  Emptying the search field never calls the diff.
\<close>

theorem read_failure_prevents_diff:
  "((\<exists>m. v (file1 s) = Inl m) \<or> (\<exists>f m. file2 s = Some f \<and> v f = Inl m) \<longrightarrow>
      diffCalls (onOpen dl v s) = diffCalls s
      \<and> resultEl (onOpen dl v s) = [TextNode ''Error loading file content.'']
      \<and> (\<exists>name. notices (onOpen dl v s) =
                   notices s @ [''Error reading content for '' @ name]))
   \<and> ((\<exists>m. v (file1 s) = Inl m) \<or> (\<exists>m. v file = Inl m) \<longrightarrow>
      diffCalls (selectFile dl v file s) = diffCalls s
      \<and> resultEl (selectFile dl v file s) = [TextNode ''Select a file to compare against.'']
      \<and> (\<exists>name. notices (selectFile dl v file s) =
                   notices s @ [''Selected: '' @ basename file,
                                ''Error reading content for '' @ name]))
   \<and> (diffCalls (onOpen dl v s) \<noteq> diffCalls s \<longrightarrow>
      (\<exists>f c1 c2. file2 s = Some f \<and> v (file1 s) = Inr c1 \<and> v f = Inr c2
         \<and> diffCalls (onOpen dl v s) = diffCalls s @ [(c1, c2)]))
   \<and> (diffCalls (selectFile dl v file s) \<noteq> diffCalls s \<longrightarrow>
      (\<exists>c1 c2. v (file1 s) = Inr c1 \<and> v file = Inr c2
         \<and> diffCalls (selectFile dl v file s) = diffCalls s @ [(c1, c2)]))
   \<and> diffCalls (onSearchCleared dl s) = diffCalls s"
proof (intro conjI impI)
  assume a: "(\<exists>m. v (file1 s) = Inl m) \<or> (\<exists>f m. file2 s = Some f \<and> v f = Inl m)"
  from onOpen_read_failure [OF a]
  show "diffCalls (onOpen dl v s) = diffCalls s"
    and "resultEl (onOpen dl v s) = [TextNode ''Error loading file content.'']"
    and "\<exists>name. notices (onOpen dl v s) = notices s @ [''Error reading content for '' @ name]"
    by blast+
next
  assume a: "(\<exists>m. v (file1 s) = Inl m) \<or> (\<exists>m. v file = Inl m)"
  from selectFile_read_failure [OF a]
  show "diffCalls (selectFile dl v file s) = diffCalls s"
    and "resultEl (selectFile dl v file s) = [TextNode ''Select a file to compare against.'']"
    and "\<exists>name. notices (selectFile dl v file s) =
           notices s @ [''Selected: '' @ basename file, ''Error reading content for '' @ name]"
    by blast+
next
  assume "diffCalls (onOpen dl v s) \<noteq> diffCalls s"
  then show "\<exists>f c1 c2. file2 s = Some f \<and> v (file1 s) = Inr c1 \<and> v f = Inr c2
         \<and> diffCalls (onOpen dl v s) = diffCalls s @ [(c1, c2)]"
    by (rule onOpen_diff_called)
next
  assume "diffCalls (selectFile dl v file s) \<noteq> diffCalls s"
  then show "\<exists>c1 c2. v (file1 s) = Inr c1 \<and> v file = Inr c2
         \<and> diffCalls (selectFile dl v file s) = diffCalls s @ [(c1, c2)]"
    by (rule selectFile_diff_called)
next
  show "diffCalls (onSearchCleared dl s) = diffCalls s"
    by (simp add: onSearchCleared_def diffCalls_updateDiffDisplay)
qed

theorem read_failure_prevents_diff_witness:
  "twoFileVault (Inr ''x'') (Inl (Some ''EACCES'')) noteB = Inl (Some ''EACCES'')
   \<and> file2 (newDiffModal noteA (Some noteB)) = Some noteB
   \<and> diffCalls (onOpen diffLines (twoFileVault (Inr ''x'') (Inl (Some ''EACCES'')))
                  (newDiffModal noteA (Some noteB))) = []
   \<and> resultEl (onOpen diffLines (twoFileVault (Inr ''x'') (Inl (Some ''EACCES'')))
                  (newDiffModal noteA (Some noteB))) = [TextNode ''Error loading file content.'']
   \<and> notices (onOpen diffLines (twoFileVault (Inr ''x'') (Inl (Some ''EACCES'')))
                  (newDiffModal noteA (Some noteB))) = [''Error reading content for b'']
   \<and> diffCalls (onOpen diffLines (twoFileVault (Inr ''x'') (Inr ''y''))
                  (newDiffModal noteA (Some noteB))) = [(''x'', ''y'')]"
proof -
  have n: "notices (onOpen diffLines (twoFileVault (Inr ''x'') (Inl (Some ''EACCES'')))
                  (newDiffModal noteA (Some noteB))) = [''Error reading content for b'']"
    by (simp add: onOpen_unfold loadFilesContent_def catchReadError_def failedFile_def
        setText_def newDiffModal_def twoFileVault_def noteA_def noteB_def)
  have d: "diffCalls (onOpen diffLines (twoFileVault (Inr ''x'') (Inr ''y''))
                  (newDiffModal noteA (Some noteB))) \<noteq> diffCalls (newDiffModal noteA (Some noteB))"
    by (simp add: onOpen_unfold loadFilesContent_def diffCalls_updateDiffDisplay
        setText_def newDiffModal_def twoFileVault_def noteA_def noteB_def)
  show ?thesis
    using n d
      read_failure_prevents_diff [of "twoFileVault (Inr ''x'') (Inl (Some ''EACCES''))"
        "newDiffModal noteA (Some noteB)" diffLines noteB]
      read_failure_prevents_diff [of "twoFileVault (Inr ''x'') (Inr ''y'')"
        "newDiffModal noteA (Some noteB)" diffLines noteB]
    by (auto simp: newDiffModal_def twoFileVault_def noteA_def noteB_def)
qed

text \<open>
  C2, as the code has it. The content fields are plain strings that start as the
  empty string, and the display treats an empty content as content that is not there
  yet: with a second file set, the diff is called, on the two contents, exactly when
  both are non-empty; when one is empty no diff is computed and "Waiting for file
  content..." is shown; without a second file it is "Select a file to compare
  against.". So after both reads of \<^verbatim>\<open>onOpen\<close> have succeeded the diff is called if
  and only if both contents read are non-empty.
\<close>

theorem empty_content_counts_as_not_loaded:
  "file1Content (newDiffModal f1 f2) = [] \<and> file2Content (newDiffModal f1 f2) = []
   \<and> diffCalls (updateDiffDisplay dl s) =
       (if file2 s \<noteq> None \<and> file1Content s \<noteq> [] \<and> file2Content s \<noteq> []
        then diffCalls s @ [(file1Content s, file2Content s)]
        else diffCalls s)
   \<and> (file2 s \<noteq> None \<and> (file1Content s = [] \<or> file2Content s = []) \<longrightarrow>
        resultEl (updateDiffDisplay dl s) = [TextNode ''Waiting for file content...''])
   \<and> (file2 s = None \<longrightarrow>
        resultEl (updateDiffDisplay dl s) = [TextNode ''Select a file to compare against.''])
   \<and> (file2 s = Some f \<and> v (file1 s) = Inr c1 \<and> v f = Inr c2 \<longrightarrow>
        diffCalls (onOpen dl v s) =
          (if c1 \<noteq> [] \<and> c2 \<noteq> [] then diffCalls s @ [(c1, c2)] else diffCalls s))"
proof -
  have "diffCalls (onOpen dl v s) =
          (if c1 \<noteq> [] \<and> c2 \<noteq> [] then diffCalls s @ [(c1, c2)] else diffCalls s)"
    if "file2 s = Some f" "v (file1 s) = Inr c1" "v f = Inr c2"
  proof -
    have "loadFilesContent v (setText ''Loading comparison...'' s) =
            (True, (setText ''Loading comparison...'' s)\<lparr>file1Content := c1, file2Content := c2\<rparr>)"
      using that by (intro loadFilesContent_both_read) (simp_all add: setText_def)
    then show ?thesis using that
      by (simp add: onOpen_unfold diffCalls_updateDiffDisplay setText_def)
  qed
  then show ?thesis
    by (simp add: newDiffModal_def diffCalls_updateDiffDisplay resultEl_updateDiffDisplay)
qed

theorem empty_content_counts_as_not_loaded_witness:
  "file2 (newDiffModal noteA (Some noteB)) = Some noteB
   \<and> file1Content (newDiffModal noteA (Some noteB)) = []
   \<and> twoFileVault (Inr ''x'') (Inr ''y'') (file1 (newDiffModal noteA (Some noteB))) = Inr ''x''
   \<and> twoFileVault (Inr ''x'') (Inr ''y'') noteB = Inr ''y''
   \<and> resultEl (updateDiffDisplay diffLines (newDiffModal noteA (Some noteB)))
       = [TextNode ''Waiting for file content...'']
   \<and> diffCalls (updateDiffDisplay diffLines (newDiffModal noteA (Some noteB))) = []
   \<and> diffCalls (onOpen diffLines (twoFileVault (Inr ''x'') (Inr ''y''))
                  (newDiffModal noteA (Some noteB))) = [(''x'', ''y'')]"
  using empty_content_counts_as_not_loaded [of noteA "Some noteB" diffLines
      "newDiffModal noteA (Some noteB)" noteB "twoFileVault (Inr ''x'') (Inr ''y'')" "''x''" "''y''"]
  by (simp add: newDiffModal_def twoFileVault_def noteA_def noteB_def)

text \<open>
  C2 as stated fails: the first file is read successfully and is empty, the second
  is read successfully and holds \<open>x\<close>; the diff is not called on the two contents,
  and the display is the one of a modal whose contents were never loaded.
\<close>

theorem loaded_empty_document_not_compared:
  "([], ''x'') \<notin> set (diffCalls (onOpen diffLines (twoFileVault (Inr []) (Inr ''x''))
                                  (newDiffModal noteA (Some noteB))))
   \<and> resultEl (onOpen diffLines (twoFileVault (Inr []) (Inr ''x''))
                 (newDiffModal noteA (Some noteB)))
       = [TextNode ''Waiting for file content...'']
   \<and> resultEl (onOpen diffLines (twoFileVault (Inr []) (Inr ''x''))
                 (newDiffModal noteA (Some noteB)))
       = resultEl (updateDiffDisplay diffLines (newDiffModal noteA (Some noteB)))"
  by (simp add: onOpen_unfold loadFilesContent_def diffCalls_updateDiffDisplay
      resultEl_updateDiffDisplay setText_def newDiffModal_def twoFileVault_def noteA_def noteB_def)

text \<open>
  C5. When both contents are empty the display holds no span, hence no segment and no
  rendered line, and the diff is not called: the result element holds one text, the
  hint to select a file or the waiting message. For any two contents the display is
  defined: it holds the spans of the parts returned by the diff, one span per part,
  when a second file is set and both contents are non-empty, and no span otherwise.
  Every function of the model is total and none has an error result, as no step of
  \<^verbatim>\<open>updateDiffDisplay\<close> throws; the array \<^verbatim>\<open>lines\<close> read at its last index is never
  empty.
\<close>

theorem both_empty_renders_nothing:
  "(file1Content s = [] \<and> file2Content s = [] \<longrightarrow>
      spansOf (resultEl (updateDiffDisplay dl s)) = []
      \<and> renderedLines (updateDiffDisplay dl s) = []
      \<and> diffCalls (updateDiffDisplay dl s) = diffCalls s
      \<and> resultEl (updateDiffDisplay dl s) =
          [TextNode (if file2 s = None then ''Select a file to compare against.''
                     else ''Waiting for file content...'')])
   \<and> spansOf (resultEl (updateDiffDisplay dl s)) =
       (if file2 s \<noteq> None \<and> file1Content s \<noteq> [] \<and> file2Content s \<noteq> []
        then map renderPart (dl (file1Content s) (file2Content s))
        else [])
   \<and> split_nl (part_value part) \<noteq> []"
proof -
  have a: "spansOf (resultEl (updateDiffDisplay dl s)) =
       (if file2 s \<noteq> None \<and> file1Content s \<noteq> [] \<and> file2Content s \<noteq> []
        then map renderPart (dl (file1Content s) (file2Content s))
        else [])"
    by (simp only: spansOf_updateDiffDisplay renderDiff_def)
  have b: "renderedLines (updateDiffDisplay dl s) = []"
    if "file1Content s = []" "file2Content s = []"
    using that by (simp add: renderedLines_def a)
  have c: "resultEl (updateDiffDisplay dl s) =
          [TextNode (if file2 s = None then ''Select a file to compare against.''
                     else ''Waiting for file content...'')]"
    if "file1Content s = []" "file2Content s = []"
    using that by (simp add: resultEl_updateDiffDisplay)
  have d: "diffCalls (updateDiffDisplay dl s) = diffCalls s"
    if "file1Content s = []" "file2Content s = []"
    using that by (simp add: diffCalls_updateDiffDisplay)
  from a b c d split_nl_not_Nil [of "part_value part"] show ?thesis
    by simp
qed

theorem both_empty_renders_nothing_witness:
  "file1Content (newDiffModal noteA (Some noteB)) = []
   \<and> file2Content (newDiffModal noteA (Some noteB)) = []
   \<and> spansOf (resultEl (updateDiffDisplay diffLines (newDiffModal noteA (Some noteB)))) = []
   \<and> renderedLines (updateDiffDisplay diffLines (newDiffModal noteA (Some noteB))) = []
   \<and> resultEl (updateDiffDisplay diffLines (newDiffModal noteA (Some noteB)))
       = [TextNode ''Waiting for file content...'']"
  using both_empty_renders_nothing [of "newDiffModal noteA (Some noteB)" diffLines
      "unchangedPart []"]
  by (simp add: newDiffModal_def)

text \<open>
  C9. The display produced by \<^verbatim>\<open>updateDiffDisplay\<close> is a function of the two contents
  and of whether a second file is set (the diff of the library being a function of
  its two arguments): two states that agree on these give the same children of the
  result element, whatever they held before, and so the same rendered lines;
  running the display a second time leaves the same children, since the result
  element is emptied first.
\<close>

theorem display_is_deterministic:
  assumes "file1Content s = file1Content s'"
    and "file2Content s = file2Content s'"
    and "file2 s = None \<longleftrightarrow> file2 s' = None"
  shows "resultEl (updateDiffDisplay dl s) = resultEl (updateDiffDisplay dl s')
       \<and> renderedLines (updateDiffDisplay dl s) = renderedLines (updateDiffDisplay dl s')
       \<and> resultEl (updateDiffDisplay dl (updateDiffDisplay dl s)) = resultEl (updateDiffDisplay dl s)"
  using assms
  by (simp add: renderedLines_def resultEl_updateDiffDisplay fields_updateDiffDisplay)

theorem display_is_deterministic_witness:
  "file1Content (newDiffModal noteA (Some noteB)\<lparr>file1Content := ''p'', file2Content := ''q''\<rparr>)
     = file1Content (newDiffModal noteA (Some noteA)
         \<lparr>file1Content := ''p'', file2Content := ''q'', resultEl := [TextNode ''old''],
          notices := [''n'']\<rparr>)
   \<and> resultEl (updateDiffDisplay diffLines
        (newDiffModal noteA (Some noteB)\<lparr>file1Content := ''p'', file2Content := ''q''\<rparr>))
     = resultEl (updateDiffDisplay diffLines
        (newDiffModal noteA (Some noteA)
           \<lparr>file1Content := ''p'', file2Content := ''q'', resultEl := [TextNode ''old''],
            notices := [''n'']\<rparr>))"
  using display_is_deterministic [of
      "newDiffModal noteA (Some noteB)\<lparr>file1Content := ''p'', file2Content := ''q''\<rparr>"
      "newDiffModal noteA (Some noteA)
         \<lparr>file1Content := ''p'', file2Content := ''q'', resultEl := [TextNode ''old''],
          notices := [''n'']\<rparr>" diffLines]
  by (simp add: newDiffModal_def)

subsection \<open>Properties of the line diff\<close>

lemma concat_tokenize: "concat (tokenize s) = s"
  by (induction s) (auto split: list.splits)

lemma tokenize_Nil_iff: "tokenize s = [] \<longleftrightarrow> s = []"
  by (cases s) (auto split: list.splits)

lemma diffTokens_old: "concat (map part_value (filter (\<lambda>p. \<not> added p) (diffTokens xs ys))) = concat xs"
  by (induction xs ys rule: diffTokens.induct)
     (simp_all add: addedPart_def removedPart_def unchangedPart_def o_def)

lemma diffTokens_new: "concat (map part_value (filter (\<lambda>p. \<not> removed p) (diffTokens xs ys))) = concat ys"
  by (induction xs ys rule: diffTokens.induct)
     (simp_all add: addedPart_def removedPart_def unchangedPart_def o_def)

lemma diffTokens_flags: "p \<in> set (diffTokens xs ys) \<Longrightarrow> \<not> (added p \<and> removed p)"
  by (induction xs ys rule: diffTokens.induct)
     (auto simp: addedPart_def removedPart_def unchangedPart_def split: if_splits)

lemma mergeRuns_old:
  "concat (map part_value (filter (\<lambda>p. \<not> added p) (mergeRuns ps))) =
   concat (map part_value (filter (\<lambda>p. \<not> added p) ps))"
proof (induction ps)
  case Nil
  show ?case by simp
next
  case (Cons p ps)
  then show ?case
    by (cases "mergeRuns ps") auto
qed

lemma mergeRuns_new:
  "concat (map part_value (filter (\<lambda>p. \<not> removed p) (mergeRuns ps))) =
   concat (map part_value (filter (\<lambda>p. \<not> removed p) ps))"
proof (induction ps)
  case Nil
  show ?case by simp
next
  case (Cons p ps)
  then show ?case
    by (cases "mergeRuns ps") auto
qed

lemma mergeRuns_flags:
  "\<forall>p \<in> set ps. \<not> (added p \<and> removed p) \<Longrightarrow> \<forall>p \<in> set (mergeRuns ps). \<not> (added p \<and> removed p)"
proof (induction ps)
  case Nil
  show ?case by simp
next
  case (Cons p ps)
  then show ?case
    by (cases "mergeRuns ps") auto
qed

lemma tokenize_nonempty: "t \<in> set (tokenize s) \<Longrightarrow> t \<noteq> []"
  by (induction s arbitrary: t) (auto split: list.splits if_splits)

lemma diffTokens_nonempty:
  "[] \<notin> set xs \<Longrightarrow> [] \<notin> set ys \<Longrightarrow> p \<in> set (diffTokens xs ys) \<Longrightarrow> part_value p \<noteq> []"
  by (induction xs ys rule: diffTokens.induct)
     (auto simp: addedPart_def removedPart_def unchangedPart_def split: if_splits)

lemma mergeRuns_nonempty:
  "\<forall>p \<in> set ps. part_value p \<noteq> [] \<Longrightarrow> \<forall>p \<in> set (mergeRuns ps). part_value p \<noteq> []"
proof (induction ps)
  case Nil
  show ?case by simp
next
  case (Cons p ps)
  then show ?case
    by (cases "mergeRuns ps") auto
qed

text \<open>No part returned by the line diff has an empty text.\<close>

lemma diffLines_parts_nonempty: "p \<in> set (diffLines a b) \<Longrightarrow> part_value p \<noteq> []"
proof -
  have "\<forall>p \<in> set (diffTokens (tokenize a) (tokenize b)). part_value p \<noteq> []"
    using diffTokens_nonempty tokenize_nonempty by blast
  then have "\<forall>p \<in> set (diffLines a b). part_value p \<noteq> []"
    unfolding diffLines_def by (rule mergeRuns_nonempty)
  then show "p \<in> set (diffLines a b) \<Longrightarrow> part_value p \<noteq> []" by blast
qed

lemma diffTokens_same: "diffTokens xs xs = map unchangedPart xs"
  by (induction xs) simp_all

lemma mergeRuns_unchanged:
  "xs \<noteq> [] \<Longrightarrow> mergeRuns (map unchangedPart xs) = [unchangedPart (concat xs)]"
proof (induction xs)
  case Nil
  then show ?case by simp
next
  case (Cons x xs)
  then show ?case
    by (cases xs) (simp_all add: unchangedPart_def)
qed

lemma diffLines_same: "diffLines a a = (if a = [] then [] else [unchangedPart a])"
  by (simp add: diffLines_def diffTokens_same mergeRuns_unchanged tokenize_Nil_iff concat_tokenize)

text \<open>
  C1. For all texts \<open>a\<close> and \<open>b\<close>, the parts returned by the line diff that are not
  added (the unchanged and the removed ones) have texts whose concatenation, in
  order, is \<open>a\<close>; the parts that are not removed (the unchanged and the added ones)
  concatenate to \<open>b\<close>; and no part is both added and removed.
\<close>

theorem diffLines_reconstructs_both_texts:
  "concat (map part_value (filter (\<lambda>p. \<not> added p) (diffLines a b))) = a
   \<and> concat (map part_value (filter (\<lambda>p. \<not> removed p) (diffLines a b))) = b
   \<and> (\<forall>p \<in> set (diffLines a b). \<not> (added p \<and> removed p))"
proof -
  have "\<forall>p \<in> set (diffTokens (tokenize a) (tokenize b)). \<not> (added p \<and> removed p)"
    using diffTokens_flags by blast
  then have "\<forall>p \<in> set (diffLines a b). \<not> (added p \<and> removed p)"
    unfolding diffLines_def by (rule mergeRuns_flags)
  then show ?thesis
    by (simp add: diffLines_def mergeRuns_old mergeRuns_new diffTokens_old diffTokens_new concat_tokenize)
qed

theorem diffLines_reconstructs_both_texts_witness:
  "diffLines (''a'' @ [nl] @ ''b'' @ [nl]) (''a'' @ [nl] @ ''c'' @ [nl])
     = [unchangedPart (''a'' @ [nl]), removedPart ''b'', addedPart ''c'', unchangedPart [nl]]
   \<and> concat (map part_value [unchangedPart (''a'' @ [nl]), removedPart ''b'', unchangedPart [nl]])
       = ''a'' @ [nl] @ ''b'' @ [nl]
   \<and> concat (map part_value [unchangedPart (''a'' @ [nl]), addedPart ''c'', unchangedPart [nl]])
       = ''a'' @ [nl] @ ''c'' @ [nl]"
proof -
  have d: "diffLines (''a'' @ [nl] @ ''b'' @ [nl]) (''a'' @ [nl] @ ''c'' @ [nl])
     = [unchangedPart (''a'' @ [nl]), removedPart ''b'', addedPart ''c'', unchangedPart [nl]]"
    by code_simp
  show ?thesis
    using diffLines_reconstructs_both_texts [of "''a'' @ [nl] @ ''b'' @ [nl]" "''a'' @ [nl] @ ''c'' @ [nl]"]
    unfolding d by (simp add: unchangedPart_def removedPart_def addedPart_def)
qed

lemma map_textContent_lineSpans:
  "map textContent (lineSpans (renderPart part)) =
     map (\<lambda>l. linePrefix part @ l) (rawLines (part_value part))"
  by (rule nth_equalityI) (simp_all add: length_lineSpans nth_lineSpans)

text \<open>
  C7. When a second file is set and both contents are the same text \<open>A\<close>, every span
  of the display has the class of unchanged text, the rendered lines are the raw
  lines of \<open>A\<close>, each behind the prefix of two spaces, their number is the number of
  lines of \<open>A\<close>, and the line contents, each followed by a line break where the
  \<^verbatim>\<open>br\<close> flag is set, give back \<open>A\<close>.
\<close>

theorem same_text_renders_unchanged_lines:
  assumes "file2 s \<noteq> None" and "file1Content s = A" and "file2Content s = A"
  shows "(\<forall>sp \<in> set (spansOf (resultEl (updateDiffDisplay diffLines s))).
            cls sp = ''diff-unchanged'')
       \<and> map textContent (renderedLines (updateDiffDisplay diffLines s)) =
           map (\<lambda>l. ''  '' @ l) (rawLines A)
       \<and> length (renderedLines (updateDiffDisplay diffLines s)) = lineCount A
       \<and> concat (map lineText (renderedLines (updateDiffDisplay diffLines s))) = A"
proof (cases "A = []")
  case True
  with assms have "spansOf (resultEl (updateDiffDisplay diffLines s)) = []"
    by (simp add: spansOf_updateDiffDisplay)
  with True show ?thesis
    by (simp add: renderedLines_def rawLines_Nil lineCount_def)
next
  case False
  with assms have sp: "spansOf (resultEl (updateDiffDisplay diffLines s)) = [renderPart (unchangedPart A)]"
    by (simp add: spansOf_updateDiffDisplay renderDiff_def diffLines_same)
  have rl: "renderedLines (updateDiffDisplay diffLines s) = lineSpans (renderPart (unchangedPart A))"
    by (simp add: renderedLines_def sp)
  have v: "part_value (unchangedPart A) = A" and p: "linePrefix (unchangedPart A) = ''  ''"
    by (simp_all add: unchangedPart_def linePrefix_def)
  have a: "\<forall>sp \<in> set (spansOf (resultEl (updateDiffDisplay diffLines s))). cls sp = ''diff-unchanged''"
    by (simp add: sp renderPart_def partClass_def unchangedPart_def Let_def)
  have b: "map textContent (renderedLines (updateDiffDisplay diffLines s)) = map (\<lambda>l. ''  '' @ l) (rawLines A)"
    using map_textContent_lineSpans [of "unchangedPart A"] by (simp only: rl v p)
  have c: "length (renderedLines (updateDiffDisplay diffLines s)) = lineCount A"
    using length_lineSpans [of "unchangedPart A"] by (simp only: rl v length_rawLines)
  have d: "concat (map lineText (renderedLines (updateDiffDisplay diffLines s))) = A"
    using renderPart_text [of "unchangedPart A"] by (simp only: rl v)
  from a b c d show ?thesis by blast
qed

theorem same_text_renders_unchanged_lines_witness:
  "file2 (newDiffModal noteA (Some noteB)
            \<lparr>file1Content := ''a'' @ [nl] @ ''b'', file2Content := ''a'' @ [nl] @ ''b''\<rparr>) \<noteq> None
   \<and> renderedLines (updateDiffDisplay diffLines
        (newDiffModal noteA (Some noteB)
            \<lparr>file1Content := ''a'' @ [nl] @ ''b'', file2Content := ''a'' @ [nl] @ ''b''\<rparr>))
       = [\<lparr>textContent = ''  a'', br = True\<rparr>, \<lparr>textContent = ''  b'', br = False\<rparr>]
   \<and> lineCount (''a'' @ [nl] @ ''b'') = 2
   \<and> map cls (spansOf (resultEl (updateDiffDisplay diffLines
        (newDiffModal noteA (Some noteB)
            \<lparr>file1Content := ''a'' @ [nl] @ ''b'', file2Content := ''a'' @ [nl] @ ''b''\<rparr>))))
       = [''diff-unchanged'']"
proof -
  have c: "map cls (spansOf (resultEl (updateDiffDisplay diffLines
        (newDiffModal noteA (Some noteB)
            \<lparr>file1Content := ''a'' @ [nl] @ ''b'', file2Content := ''a'' @ [nl] @ ''b''\<rparr>))))
       = [''diff-unchanged'']"
    by code_simp
  have r: "renderedLines (updateDiffDisplay diffLines
        (newDiffModal noteA (Some noteB)
            \<lparr>file1Content := ''a'' @ [nl] @ ''b'', file2Content := ''a'' @ [nl] @ ''b''\<rparr>))
       = [\<lparr>textContent = ''  a'', br = True\<rparr>, \<lparr>textContent = ''  b'', br = False\<rparr>]"
    by code_simp
  show ?thesis
    using r c same_text_renders_unchanged_lines [of
        "newDiffModal noteA (Some noteB)
            \<lparr>file1Content := ''a'' @ [nl] @ ''b'', file2Content := ''a'' @ [nl] @ ''b''\<rparr>"
        "''a'' @ [nl] @ ''b''"]
    by (simp add: newDiffModal_def lineCount_def)
qed

text \<open>
  C6, as the code has it. For the contents \<open>a\<close>, space, line break and \<open>a\<close>, line break,
  the display holds three spans: a removed line with \<open>a\<close> and the space, an added line
  with \<open>a\<close>, both without a \<^verbatim>\<open>br\<close>, and an unchanged line with empty content and a
  \<^verbatim>\<open>br\<close>, which is the line break the two texts share, a token of its own.
\<close>

theorem trailing_space_is_a_change:
  "resultEl (onOpen diffLines (twoFileVault (Inr (''a '' @ [nl])) (Inr (''a'' @ [nl])))
               (newDiffModal noteA (Some noteB)))
   = [SpanNode \<lparr>cls = ''diff-removed'', lineSpans = [\<lparr>textContent = ''- a '', br = False\<rparr>]\<rparr>,
      SpanNode \<lparr>cls = ''diff-added'', lineSpans = [\<lparr>textContent = ''+ a'', br = False\<rparr>]\<rparr>,
      SpanNode \<lparr>cls = ''diff-unchanged'', lineSpans = [\<lparr>textContent = ''  '', br = True\<rparr>]\<rparr>]"
  by code_simp

theorem trailing_space_is_a_change_witness:
  "renderedLines (onOpen diffLines (twoFileVault (Inr (''a '' @ [nl])) (Inr (''a'' @ [nl])))
               (newDiffModal noteA (Some noteB)))
   = [\<lparr>textContent = ''- a '', br = False\<rparr>, \<lparr>textContent = ''+ a'', br = False\<rparr>,
      \<lparr>textContent = ''  '', br = True\<rparr>]"
  using trailing_space_is_a_change by (simp add: renderedLines_def)

text \<open>
  C6 as stated fails: for these two contents the display does hold an unchanged
  line.
\<close>

theorem trailing_space_diff_has_unchanged_line:
  "\<lparr>cls = ''diff-unchanged'', lineSpans = [\<lparr>textContent = ''  '', br = True\<rparr>]\<rparr>
     \<in> set (spansOf (resultEl
          (onOpen diffLines (twoFileVault (Inr (''a '' @ [nl])) (Inr (''a'' @ [nl])))
             (newDiffModal noteA (Some noteB)))))"
  by code_simp

end
